theory Spec2Isabelle
  imports Complex_Main "HOL-Library.Word" "HOL-Library.AList"
begin

section \<open>Values held in a Go \<open>interface{}\<close>\<close>

text \<open>
  The bind/validate engine of \<^verbatim>\<open>params.go\<close> works on \<^verbatim>\<open>map[string]interface{}\<close>.
  The values it distinguishes by type switch are the JSON-decoded ones (nil, bool, float64,
  string, \<^verbatim>\<open>[]interface{}\<close>, \<^verbatim>\<open>map[string]interface{}\<close>) and the native \<^verbatim>\<open>int\<close> a caller
  may put into a map built by hand.

  A \<^verbatim>\<open>float64\<close> is its exact numerical value when finite (every finite float64 is a
  rational; the model admits all rationals, so a statement about every \<open>Finite r\<close> covers
  every finite float64), or one of the three non-finite values. Go's \<^verbatim>\<open>int\<close> is taken to be
  64 bits wide. A Go map is an association list read through \<open>map_of\<close>; a string is its
  list of bytes.
\<close>

datatype float64 = Finite rat | PosInf | NegInf | NaN

datatype jval =
    VNil
  | VBool bool
  | VFloat float64
  | VInt "64 word"
  | VString string
  | VArray "jval list"
  | VMap "(string \<times> jval) list"

type_synonym Input = "(string \<times> jval) list"

section \<open>Schema descriptors\<close>

type_synonym FieldType = string

abbreviation String :: FieldType where "String \<equiv> ''string''"
abbreviation Integer :: FieldType where "Integer \<equiv> ''integer''"
abbreviation Float :: FieldType where "Float \<equiv> ''float''"
abbreviation BigDecimal :: FieldType where "BigDecimal \<equiv> ''bigdecimal''"
abbreviation Numeric :: FieldType where "Numeric \<equiv> ''numeric''"
abbreviation Date :: FieldType where "Date \<equiv> ''date''"
abbreviation DateTime :: FieldType where "DateTime \<equiv> ''datetime''"
abbreviation Time :: FieldType where "Time \<equiv> ''time''"
abbreviation Boolean :: FieldType where "Boolean \<equiv> ''boolean''"
abbreviation JSON :: FieldType where "JSON \<equiv> ''json''"
abbreviation Slice :: FieldType where "Slice \<equiv> ''slice''"

text \<open>
  \<^verbatim>\<open>type Param struct\<close>. The field \<^verbatim>\<open>Schema *Params\<close> is \<open>None\<close> for the nil pointer and
  otherwise the \<^verbatim>\<open>Fields\<close> of the schema pointed to, so a schema is a finite tree of
  descriptors (a schema that points back to itself is outside the model).
\<close>

datatype Param = Param
  (Name: string)
  (Type: FieldType)
  (Validate: string)
  (RequiredOn: "string list")
  (Schema: "Param list option")
  (SliceType: FieldType)

section \<open>Errors, panics and the external collaborators\<close>

text \<open>
  One constructor per \<^verbatim>\<open>fmt.Errorf\<close> format of \<^verbatim>\<open>params.go\<close>:
  \<^item> \<open>MissingRequired n m\<close>: \<^verbatim>\<open>missing required field 'n' for m\<close>;
  \<^item> \<open>MustBe n w\<close>: \<^verbatim>\<open>field 'n' must be w\<close>;
  \<^item> \<open>ValidationFailed n e\<close>: \<^verbatim>\<open>field 'n' validation failed: e\<close> (wrapping \<open>e\<close>);
  \<^item> \<open>ElementMustBeObject n\<close>: \<^verbatim>\<open>element in 'n' must be object\<close>;
  \<^item> \<open>ElementValidationFailed n e\<close>: \<^verbatim>\<open>element in 'n' validation failed: e\<close>;
  \<^item> \<open>RuleViolation t\<close>: the error returned by the rule engine's \<^verbatim>\<open>validate.Var\<close>;
  \<^item> \<open>UnmarshalError\<close>: the error of \<^verbatim>\<open>json.Unmarshal\<close> inside \<^verbatim>\<open>validateJSON\<close>.
\<close>

datatype error =
    MissingRequired string string
  | MustBe string string
  | ValidationFailed string error
  | ElementMustBeObject string
  | ElementValidationFailed string error
  | RuleViolation string
  | UnmarshalError

text \<open>A call either panics or returns; a loop body panics, fails with an error, or goes on.\<close>

datatype 'a call = Panic | Return 'a

datatype 'a step = Aborted | Failed error | Bound 'a

text \<open>
  What the engine takes from outside the repository:
  \<^item> \<open>validate_var x tag\<close>: \<^verbatim>\<open>validate.Var(x, tag)\<close> of the third-party rule engine,
    \<open>None\<close> for a nil error;
  \<^item> \<open>conv_out_of_range x\<close>: the result of \<^verbatim>\<open>int(x)\<close> for a float64 whose truncation is
    not an \<^verbatim>\<open>int\<close> (the Go specification leaves it to the implementation);
  \<^item> \<open>nearest_float64 n\<close>: the float64 nearest to an integer beyond \<open>2 ^ 53\<close>;
  \<^item> \<open>sprintf_f10 x\<close>: \<^verbatim>\<open>fmt.Sprintf("%.10f", x)\<close>;
  \<^item> \<open>json_unmarshal s\<close>: \<^verbatim>\<open>json.Unmarshal([]byte(s), &parsed)\<close>, \<open>None\<close> on a decode error.
\<close>

record env =
  validate_var :: "jval \<Rightarrow> string \<Rightarrow> string option"
  conv_out_of_range :: "float64 \<Rightarrow> 64 word"
  nearest_float64 :: "int \<Rightarrow> rat"
  sprintf_f10 :: "float64 \<Rightarrow> string"
  json_unmarshal :: "string \<Rightarrow> jval option"

section \<open>Library functions the engine calls\<close>

subsection \<open>\<^verbatim>\<open>strings.TrimSpace\<close>\<close>

text \<open>
  The white-space runes of \<^verbatim>\<open>unicode.IsSpace\<close> in UTF-8: the six ASCII ones, U+0085,
  U+00A0, U+1680, U+2000 to U+200A, U+2028, U+2029, U+202F, U+205F and U+3000.
\<close>

definition spaceRunes :: "string list" where
  "spaceRunes =
    [[CHR 0x09], [CHR 0x0A], [CHR 0x0B], [CHR 0x0C], [CHR 0x0D], [CHR 0x20],
     [CHR 0xC2, CHR 0x85], [CHR 0xC2, CHR 0xA0],
     [CHR 0xE1, CHR 0x9A, CHR 0x80],
     [CHR 0xE2, CHR 0x80, CHR 0x80], [CHR 0xE2, CHR 0x80, CHR 0x81],
     [CHR 0xE2, CHR 0x80, CHR 0x82], [CHR 0xE2, CHR 0x80, CHR 0x83],
     [CHR 0xE2, CHR 0x80, CHR 0x84], [CHR 0xE2, CHR 0x80, CHR 0x85],
     [CHR 0xE2, CHR 0x80, CHR 0x86], [CHR 0xE2, CHR 0x80, CHR 0x87],
     [CHR 0xE2, CHR 0x80, CHR 0x88], [CHR 0xE2, CHR 0x80, CHR 0x89],
     [CHR 0xE2, CHR 0x80, CHR 0x8A],
     [CHR 0xE2, CHR 0x80, CHR 0xA8], [CHR 0xE2, CHR 0x80, CHR 0xA9],
     [CHR 0xE2, CHR 0x80, CHR 0xAF], [CHR 0xE2, CHR 0x81, CHR 0x9F],
     [CHR 0xE3, CHR 0x80, CHR 0x80]]"

text \<open>Drop from the front of \<open>s\<close> every leading occurrence of one of the byte strings \<open>ws\<close>.\<close>

function stripRunes :: "string list \<Rightarrow> string \<Rightarrow> string" where
  "stripRunes ws s =
    (case find (\<lambda>w. w \<noteq> [] \<and> take (length w) s = w) ws of
       None \<Rightarrow> s
     | Some w \<Rightarrow> stripRunes ws (drop (length w) s))"
  by pat_completeness auto
termination
proof (relation "measure (\<lambda>(ws, s). length s)")
  show "wf (measure (\<lambda>(ws, s). length s))" by simp
next
  fix ws :: "string list" and s w :: string
  assume "find (\<lambda>w. w \<noteq> [] \<and> take (length w) s = w) ws = Some w"
  then have w: "w \<noteq> []" "take (length w) s = w"
    by (auto simp: find_Some_iff)
  from w(2) have "length (take (length w) s) = length w"
    by simp
  then have "length w \<le> length s"
    by simp
  with w show "((ws, drop (length w) s), (ws, s)) \<in> measure (\<lambda>(ws, s). length s)"
    by (cases w) auto
qed

declare stripRunes.simps [simp del]

text \<open>\<^verbatim>\<open>TrimSpace\<close> trims at the front, then at the back (the same runes read backwards).\<close>

definition TrimSpace :: "string \<Rightarrow> string" where
  "TrimSpace s = rev (stripRunes (map rev spaceRunes) (rev (stripRunes spaceRunes s)))"

subsection \<open>Numeric conversions\<close>

definition trunc_toward_zero :: "rat \<Rightarrow> int" where
  "trunc_toward_zero r = (if 0 \<le> r then \<lfloor>r\<rfloor> else \<lceil>r\<rceil>)"

text \<open>The conversion \<^verbatim>\<open>int(x)\<close> of a float64.\<close>

definition float_to_int :: "env \<Rightarrow> float64 \<Rightarrow> 64 word" where
  "float_to_int e x =
    (case x of
       Finite r \<Rightarrow>
         if - (2 ^ 63) \<le> trunc_toward_zero r \<and> trunc_toward_zero r < 2 ^ 63
         then word_of_int (trunc_toward_zero r)
         else conv_out_of_range e x
     | _ \<Rightarrow> conv_out_of_range e x)"

text \<open>The float64 an \<^verbatim>\<open>int\<close> becomes (exact up to \<open>2 ^ 53\<close>, the nearest float64 beyond).\<close>

definition int_to_float :: "env \<Rightarrow> 64 word \<Rightarrow> float64" where
  "int_to_float e n =
    (if \<bar>sint n\<bar> \<le> 2 ^ 53 then Finite (of_int (sint n))
     else Finite (nearest_float64 e (sint n)))"

subsection \<open>The JSON round trip of \<^verbatim>\<open>validateJSON\<close>\<close>

text \<open>
  \<^verbatim>\<open>json.Marshal\<close> followed by \<^verbatim>\<open>json.Unmarshal\<close> into an \<^verbatim>\<open>interface{}\<close>. Marshalling
  fails on a non-finite float64; \<^verbatim>\<open>validateJSON\<close> drops that error and the unmarshalling of
  the empty output then fails, which is the \<open>None\<close> here. An \<^verbatim>\<open>int\<close> comes back as a
  float64. Strings are taken to be valid UTF-8, which the round trip leaves as they are.
\<close>

fun json_roundtrip :: "env \<Rightarrow> jval \<Rightarrow> jval option" where
  "json_roundtrip e VNil = Some VNil"
| "json_roundtrip e (VBool b) = Some (VBool b)"
| "json_roundtrip e (VFloat x) = (case x of Finite r \<Rightarrow> Some (VFloat x) | _ \<Rightarrow> None)"
| "json_roundtrip e (VInt n) = Some (VFloat (int_to_float e n))"
| "json_roundtrip e (VString s) = Some (VString s)"
| "json_roundtrip e (VArray xs) = map_option VArray (those (map (json_roundtrip e) xs))"
| "json_roundtrip e (VMap kvs) =
     map_option VMap
       (those (map (\<lambda>kv. map_option (Pair (fst kv)) (json_roundtrip e (snd kv))) kvs))"

definition roundtrip_map :: "env \<Rightarrow> Input \<Rightarrow> Input option" where
  "roundtrip_map e raw =
    those (map (\<lambda>kv. map_option (Pair (fst kv)) (json_roundtrip e (snd kv))) raw)"

section \<open>The bind/validate engine\<close>

text \<open>
  The loop \<^verbatim>\<open>for _, r := range f.RequiredOn\<close> that sets \<^verbatim>\<open>isRequired\<close>: an entry counts
  when it equals the mode after its own white space is trimmed.
\<close>

fun isRequired :: "string list \<Rightarrow> string \<Rightarrow> bool" where
  "isRequired [] mode = False"
| "isRequired (r # rs) mode = (if TrimSpace r = mode then True else isRequired rs mode)"

text \<open>
  The block \<^verbatim>\<open>if f.Validate != "" { if err := validate.Var(x, f.Validate); err != nil {...} }\<close>
  followed by the binding of \<open>x\<close>.
\<close>

definition checked :: "env \<Rightarrow> string \<Rightarrow> string \<Rightarrow> jval \<Rightarrow> jval step" where
  "checked e name tag x =
    (if tag \<noteq> [] then
       (case validate_var e x tag of
          Some err \<Rightarrow> Failed (ValidationFailed name (RuleViolation err))
        | None \<Rightarrow> Bound x)
     else Bound x)"

text \<open>
  The closing loop \<^verbatim>\<open>for k, v := range raw { if _, ok := out[k]; !ok { out[k] = v } }\<close>.
\<close>

fun passthrough :: "Input \<Rightarrow> Input \<Rightarrow> Input" where
  "passthrough [] out = out"
| "passthrough (kv # raw) out =
     passthrough raw
       (if map_of out (fst kv) = None then AList.update (fst kv) (snd kv) out else out)"

text \<open>A returned \<^verbatim>\<open>map[string]interface{}\<close> stored into an \<^verbatim>\<open>interface{}\<close> (nil reads as empty).\<close>

definition as_map :: "Input option \<Rightarrow> jval" where
  "as_map m = VMap (case m of None \<Rightarrow> [] | Some kvs \<Rightarrow> kvs)"

subsection \<open>\<^verbatim>\<open>validateJSON\<close>\<close>

text \<open>
  \<open>validateJSON_value\<close> is the \<^verbatim>\<open>switch f.Type\<close> of \<^verbatim>\<open>validateJSON\<close>, giving the value that
  the branch stores under \<^verbatim>\<open>out[f.Name]\<close>. Its argument \<open>nested\<close> stands for the recursive
  call \<^verbatim>\<open>f.Schema.validateJSON(_, mode)\<close>, which \<open>validateJSON_loop\<close> hands over. The type
  assertion \<^verbatim>\<open>val.(map[string]interface{})\<close> of the \<^verbatim>\<open>JSON\<close> case has no \<^verbatim>\<open>ok\<close> result, so
  it panics on any other value.
\<close>

definition validateJSON_value ::
  "env \<Rightarrow> Param \<Rightarrow> jval \<Rightarrow> (Input \<Rightarrow> (Input option \<times> error option) call) \<Rightarrow> jval step" where
  "validateJSON_value e f v nested =
    (if Type f = String then
       (case v of
          VString s \<Rightarrow> checked e (Name f) (Validate f) (VString s)
        | _ \<Rightarrow> Failed (MustBe (Name f) ''string''))
     else if Type f = Integer then
       (case v of
          VFloat x \<Rightarrow> Bound (VInt (float_to_int e x))
        | VInt n \<Rightarrow> Bound (VInt n)
        | _ \<Rightarrow> Failed (MustBe (Name f) ''integer''))
     else if Type f = JSON then
       (if Schema f \<noteq> None then
          (case v of
             VMap m \<Rightarrow>
               (case nested m of
                  Panic \<Rightarrow> Aborted
                | Return (res, Some err) \<Rightarrow> Failed (ValidationFailed (Name f) err)
                | Return (res, None) \<Rightarrow> Bound (as_map res))
           | _ \<Rightarrow> Aborted)
        else Bound v)
     else Bound v)"

text \<open>The body of the loop over \<^verbatim>\<open>p.Fields\<close> in \<^verbatim>\<open>validateJSON\<close>.\<close>

definition validateJSON_field ::
  "env \<Rightarrow> Param \<Rightarrow> Input \<Rightarrow> string \<Rightarrow> Input
    \<Rightarrow> (Input \<Rightarrow> (Input option \<times> error option) call) \<Rightarrow> Input step" where
  "validateJSON_field e f parsed mode out nested =
    (case map_of parsed (Name f) of
       None \<Rightarrow>
         if isRequired (RequiredOn f) mode then Failed (MissingRequired (Name f) mode)
         else Bound out
     | Some v \<Rightarrow>
        (case validateJSON_value e f v nested of
           Aborted \<Rightarrow> Aborted
         | Failed err \<Rightarrow> Failed err
         | Bound x \<Rightarrow> Bound (AList.update (Name f) x out)))"

text \<open>
  \<open>validateJSON\<close> makes the round trip and runs the loop; \<open>validateJSON_loop\<close> is the loop
  with the closing pass-through.
\<close>

fun validateJSON :: "env \<Rightarrow> Param list \<Rightarrow> Input \<Rightarrow> string \<Rightarrow> (Input option \<times> error option) call"
  and validateJSON_loop ::
    "env \<Rightarrow> Param list \<Rightarrow> Input \<Rightarrow> string \<Rightarrow> Input \<Rightarrow> (Input option \<times> error option) call"
where
  "validateJSON e p raw mode =
    (case roundtrip_map e raw of
       None \<Rightarrow> Return (None, Some UnmarshalError)
     | Some parsed \<Rightarrow> validateJSON_loop e p parsed mode [])"
| "validateJSON_loop e [] parsed mode out = Return (Some (passthrough parsed out), None)"
| "validateJSON_loop e (Param name ty tag req sch st # fs) parsed mode out =
    (case validateJSON_field e (Param name ty tag req sch st) parsed mode out
            (case sch of
               None \<Rightarrow> (\<lambda>m. Panic)
             | Some sub \<Rightarrow> (\<lambda>m. validateJSON e sub m mode)) of
       Aborted \<Rightarrow> Panic
     | Failed err \<Rightarrow> Return (None, Some err)
     | Bound out' \<Rightarrow> validateJSON_loop e fs parsed mode out')"

subsection \<open>\<^verbatim>\<open>BindAndValidate\<close>\<close>

text \<open>The loop over the elements of a \<^verbatim>\<open>Slice\<close> field with element type \<^verbatim>\<open>JSON\<close> and a schema.\<close>

fun bindElems :: "env \<Rightarrow> Param list \<Rightarrow> string \<Rightarrow> string \<Rightarrow> jval list \<Rightarrow> jval list \<Rightarrow> jval list step" where
  "bindElems e sub name mode [] arr = Bound arr"
| "bindElems e sub name mode (elem # svals) arr =
    (case elem of
       VMap m \<Rightarrow>
         (case validateJSON e sub m mode of
            Panic \<Rightarrow> Aborted
          | Return (nested, Some err) \<Rightarrow> Failed (ElementValidationFailed name err)
          | Return (nested, None) \<Rightarrow> bindElems e sub name mode svals (arr @ [as_map nested]))
     | _ \<Rightarrow> Failed (ElementMustBeObject name))"

text \<open>
  The \<^verbatim>\<open>switch f.Type\<close> of \<^verbatim>\<open>BindAndValidate\<close>: the value the branch stores under
  \<^verbatim>\<open>out[f.Name]\<close>, or the error it returns.
\<close>

definition bindValue :: "env \<Rightarrow> Param \<Rightarrow> jval \<Rightarrow> string \<Rightarrow> jval step" where
  "bindValue e f v mode =
    (if Type f = String then
       (case v of
          VString s \<Rightarrow> checked e (Name f) (Validate f) (VString s)
        | _ \<Rightarrow> Failed (MustBe (Name f) ''string''))
     else if Type f = Integer then
       (case v of
          VFloat x \<Rightarrow> checked e (Name f) (Validate f) (VInt (float_to_int e x))
        | VInt n \<Rightarrow> Bound (VInt n)
        | _ \<Rightarrow> Failed (MustBe (Name f) ''integer''))
     else if Type f = Float then
       (case v of
          VFloat x \<Rightarrow> checked e (Name f) (Validate f) (VFloat x)
        | _ \<Rightarrow> Failed (MustBe (Name f) ''float''))
     else if Type f = BigDecimal then
       (case v of
          VString s \<Rightarrow> checked e (Name f) (Validate f) (VString s)
        | VFloat x \<Rightarrow> Bound (VString (sprintf_f10 e x))
        | _ \<Rightarrow> Failed (MustBe (Name f) ''bigdecimal (string or float)''))
     else if Type f = Numeric then
       (case v of
          VFloat x \<Rightarrow> checked e (Name f) (Validate f) (VFloat x)
        | VString s \<Rightarrow> checked e (Name f) (Validate f) (VString s)
        | _ \<Rightarrow> Failed (MustBe (Name f) ''numeric (float or string)''))
     else if Type f = Date then
       (case v of
          VString s \<Rightarrow> checked e (Name f) (Validate f) (VString s)
        | _ \<Rightarrow> Failed (MustBe (Name f) ''date string''))
     else if Type f = DateTime then
       (case v of
          VString s \<Rightarrow> checked e (Name f) (Validate f) (VString s)
        | _ \<Rightarrow> Failed (MustBe (Name f) ''datetime string''))
     else if Type f = Time then
       (case v of
          VString s \<Rightarrow> checked e (Name f) (Validate f) (VString s)
        | _ \<Rightarrow> Failed (MustBe (Name f) ''time string''))
     else if Type f = Boolean then
       (case v of
          VBool b \<Rightarrow> Bound (VBool b)
        | _ \<Rightarrow> Failed (MustBe (Name f) ''boolean''))
     else if Type f = JSON then
       (case v of
          VMap m \<Rightarrow>
            (case Schema f of
               Some sub \<Rightarrow>
                 (case validateJSON e sub m mode of
                    Panic \<Rightarrow> Aborted
                  | Return (nested, Some err) \<Rightarrow> Failed (ValidationFailed (Name f) err)
                  | Return (nested, None) \<Rightarrow> Bound (as_map nested))
             | None \<Rightarrow> Bound (VMap m))
        | VArray xs \<Rightarrow> Bound (VArray xs)
        | VString s \<Rightarrow>
            (case json_unmarshal e s of
               None \<Rightarrow> Failed (MustBe (Name f) ''valid JSON'')
             | Some parsed \<Rightarrow> Bound parsed)
        | _ \<Rightarrow> Failed (MustBe (Name f) ''json (object, array, or json string)''))
     else if Type f = Slice then
       (case v of
          VArray svals \<Rightarrow>
            (case Schema f of
               Some sub \<Rightarrow>
                 if SliceType f = JSON then
                   (case bindElems e sub (Name f) mode svals [] of
                      Aborted \<Rightarrow> Aborted
                    | Failed err \<Rightarrow> Failed err
                    | Bound arr \<Rightarrow> Bound (VArray arr))
                 else Bound (VArray svals)
             | None \<Rightarrow> Bound (VArray svals))
        | _ \<Rightarrow> Failed (MustBe (Name f) ''array''))
     else Bound v)"

text \<open>The body of the loop over \<^verbatim>\<open>p.Fields\<close>: look the name up, then bind the value.\<close>

definition bindField :: "env \<Rightarrow> Param \<Rightarrow> Input \<Rightarrow> string \<Rightarrow> Input \<Rightarrow> Input step" where
  "bindField e f raw mode out =
    (case map_of raw (Name f) of
       None \<Rightarrow>
         if isRequired (RequiredOn f) mode then Failed (MissingRequired (Name f) mode)
         else Bound out
     | Some v \<Rightarrow>
        (case bindValue e f v mode of
           Aborted \<Rightarrow> Aborted
         | Failed err \<Rightarrow> Failed err
         | Bound x \<Rightarrow> Bound (AList.update (Name f) x out)))"

text \<open>The loop over \<^verbatim>\<open>p.Fields\<close>, left at the first \<^verbatim>\<open>return nil, err\<close>.\<close>

fun bindFields :: "env \<Rightarrow> Param list \<Rightarrow> Input \<Rightarrow> string \<Rightarrow> Input \<Rightarrow> Input step" where
  "bindFields e [] raw mode out = Bound out"
| "bindFields e (f # fs) raw mode out =
    (case bindField e f raw mode out of
       Aborted \<Rightarrow> Aborted
     | Failed err \<Rightarrow> Failed err
     | Bound out' \<Rightarrow> bindFields e fs raw mode out')"

text \<open>
  \<^verbatim>\<open>BindAndValidate\<close> returns the pair \<^verbatim>\<open>(Input, error)\<close>: \<^verbatim>\<open>nil, err\<close> from inside the loop,
  and \<^verbatim>\<open>out, nil\<close> after the pass-through of the undeclared keys.
\<close>

definition BindAndValidate ::
  "env \<Rightarrow> Param list \<Rightarrow> Input \<Rightarrow> string \<Rightarrow> (Input option \<times> error option) call" where
  "BindAndValidate e p raw mode =
    (case bindFields e p raw mode [] of
       Aborted \<Rightarrow> Panic
     | Failed err \<Rightarrow> Return (None, Some err)
     | Bound out \<Rightarrow> Return (Some (passthrough raw out), None))"

section \<open>The schema builder\<close>

text \<open>
  \<^verbatim>\<open>NewParams\<close>, \<^verbatim>\<open>Requires\<close>, \<^verbatim>\<open>Optional\<close> and the chained setters of \<^verbatim>\<open>FieldBuilder\<close>. A
  \<^verbatim>\<open>FieldBuilder\<close> holds its own copy \<^verbatim>\<open>param\<close> of the descriptor and a pointer to the
  schema; the state of a schema under construction is therefore its \<^verbatim>\<open>Fields\<close> together
  with the \<^verbatim>\<open>param\<close> of every handle handed out so far, in the order of their creation.
\<close>

record builder =
  Fields :: "Param list"
  handles :: "Param list"

definition NewParams :: builder where
  "NewParams = \<lparr> Fields = [], handles = [] \<rparr>"

text \<open>
  \<^verbatim>\<open>Requires\<close> and \<^verbatim>\<open>Optional\<close> differ in the source only in an empty against a nil
  \<^verbatim>\<open>RequiredOn\<close>; both append the fresh descriptor without looking at the names already there.
\<close>

definition Requires :: "string \<Rightarrow> builder \<Rightarrow> builder" where
  "Requires name b =
    (let fb = Param name [] [] [] None []
     in b\<lparr> Fields := Fields b @ [fb], handles := handles b @ [fb] \<rparr>)"

definition Optional :: "string \<Rightarrow> builder \<Rightarrow> builder" where
  "Optional name b =
    (let fb = Param name [] [] [] None []
     in b\<lparr> Fields := Fields b @ [fb], handles := handles b @ [fb] \<rparr>)"

text \<open>\<^verbatim>\<open>updateParent\<close>: the first entry with the handle's name is overwritten.\<close>

fun updateParent :: "Param \<Rightarrow> Param list \<Rightarrow> Param list" where
  "updateParent fp [] = []"
| "updateParent fp (x # xs) = (if Name x = Name fp then fp # xs else x # updateParent fp xs)"

text \<open>
  A setter called on handle \<open>h\<close>: it changes the handle's \<^verbatim>\<open>param\<close> and calls
  \<^verbatim>\<open>updateParent\<close>. (A handle that was never handed out does not exist in the source.)
\<close>

definition setter :: "nat \<Rightarrow> (Param \<Rightarrow> Param) \<Rightarrow> builder \<Rightarrow> builder" where
  "setter h upd b =
    (if h < length (handles b) then
       (let fp = upd (handles b ! h)
        in b\<lparr> Fields := updateParent fp (Fields b), handles := (handles b)[h := fp] \<rparr>)
     else b)"

definition On :: "nat \<Rightarrow> string list \<Rightarrow> builder \<Rightarrow> builder" where
  "On h endpoints =
    setter h (\<lambda>p. Param (Name p) (Type p) (Validate p) (RequiredOn p @ endpoints) (Schema p)
                  (SliceType p))"

text \<open>
  The eleven setters \<^verbatim>\<open>String()\<close>, \<^verbatim>\<open>Integer()\<close>, ..., \<^verbatim>\<open>Slice()\<close>, each with its own
  constant for \<open>t\<close>.
\<close>

definition set_Type :: "nat \<Rightarrow> FieldType \<Rightarrow> builder \<Rightarrow> builder" where
  "set_Type h t =
    setter h (\<lambda>p. Param (Name p) t (Validate p) (RequiredOn p) (Schema p) (SliceType p))"

definition set_Validate :: "nat \<Rightarrow> string \<Rightarrow> builder \<Rightarrow> builder" where
  "set_Validate h tag =
    setter h (\<lambda>p. Param (Name p) (Type p) tag (RequiredOn p) (Schema p) (SliceType p))"

definition WithSchema :: "nat \<Rightarrow> Param list option \<Rightarrow> builder \<Rightarrow> builder" where
  "WithSchema h s =
    setter h (\<lambda>p. Param (Name p) (Type p) (Validate p) (RequiredOn p) s (SliceType p))"

definition SliceOf :: "nat \<Rightarrow> FieldType \<Rightarrow> Param list option \<Rightarrow> builder \<Rightarrow> builder" where
  "SliceOf h t s =
    setter h (\<lambda>p. Param (Name p) Slice (Validate p) (RequiredOn p) s t)"

text \<open>A sequence of builder calls on one schema, and its run from the left.\<close>

datatype builder_call =
    Call_Requires string
  | Call_Optional string
  | Call_On nat "string list"
  | Call_Type nat FieldType
  | Call_Validate nat string
  | Call_WithSchema nat "Param list option"
  | Call_SliceOf nat FieldType "Param list option"

fun perform :: "builder_call \<Rightarrow> builder \<Rightarrow> builder" where
  "perform (Call_Requires name) b = Requires name b"
| "perform (Call_Optional name) b = Optional name b"
| "perform (Call_On h endpoints) b = On h endpoints b"
| "perform (Call_Type h t) b = set_Type h t b"
| "perform (Call_Validate h tag) b = set_Validate h tag b"
| "perform (Call_WithSchema h s) b = WithSchema h s b"
| "perform (Call_SliceOf h t s) b = SliceOf h t s b"

fun run :: "builder_call list \<Rightarrow> builder \<Rightarrow> builder" where
  "run [] b = b"
| "run (c # cs) b = run cs (perform c b)"

text \<open>The names a sequence of calls declares, in order.\<close>

fun declared :: "builder_call list \<Rightarrow> string list" where
  "declared [] = []"
| "declared (Call_Requires name # cs) = name # declared cs"
| "declared (Call_Optional name # cs) = name # declared cs"
| "declared (c # cs) = declared cs"

section \<open>Mapping a bound output onto a record: \<^verbatim>\<open>ToModel\<close>\<close>

text \<open>
  \<^verbatim>\<open>toSnakeCase\<close>. The source ranges over the runes of the name and looks at the byte before
  the rune; on a valid UTF-8 string (every Go identifier is one) that is the walk over the
  bytes below, \<open>prev\<close> being the byte before, if any.
\<close>

definition isUpper :: "char \<Rightarrow> bool" where
  "isUpper c = ((65::nat) \<le> of_char c \<and> of_char c \<le> (90::nat))"

definition isLower :: "char \<Rightarrow> bool" where
  "isLower c = ((97::nat) \<le> of_char c \<and> of_char c \<le> (122::nat))"

definition toLower :: "char \<Rightarrow> char" where
  "toLower c = char_of (of_char c - (65::nat) + 97)"

fun snake :: "char option \<Rightarrow> string \<Rightarrow> string" where
  "snake prev [] = []"
| "snake prev (c # cs) =
    (if isUpper c then
       (case prev of
          Some b \<Rightarrow> if isLower b then [CHR ''_'', toLower c] else [toLower c]
        | None \<Rightarrow> [toLower c]) @ snake (Some c) cs
     else c # snake (Some c) cs)"

definition toSnakeCase :: "string \<Rightarrow> string" where
  "toSnakeCase str = snake None str"

definition stringsEqualFold :: "string \<Rightarrow> string \<Rightarrow> bool" where
  "stringsEqualFold structField jsonKey = (toSnakeCase structField = jsonKey)"

text \<open>
  What \<^verbatim>\<open>ToModel\<close> takes from package \<^verbatim>\<open>reflect\<close>, on the types a bound output holds and a
  record declares for them: \<^verbatim>\<open>bool\<close>, \<^verbatim>\<open>int\<close>, \<^verbatim>\<open>float64\<close>, \<^verbatim>\<open>string\<close>, \<^verbatim>\<open>[]interface{}\<close>,
  \<^verbatim>\<open>map[string]interface{}\<close> and \<^verbatim>\<open>interface{}\<close>. A record is the list of its fields, without
  embedded records; \<open>exported\<close> says whether \<^verbatim>\<open>CanSet\<close> holds of the field reached through the
  pointer.
\<close>

datatype go_type = TBool | TInt | TFloat64 | TString | TSlice | TMap | TInterface

record struct_field =
  field_name :: string
  exported :: bool
  field_type :: go_type
  field_value :: jval

text \<open>
  The destination argument: the nil interface, a value that is no pointer, a nil pointer, a
  pointer to something that is no record, or a pointer to a record.
\<close>

datatype dest =
    NilInterface
  | NonPointer
  | NilPointer
  | PointerToNonStruct
  | PointerToStruct "struct_field list"

text \<open>The dynamic type of a non-nil value.\<close>

fun type_of :: "jval \<Rightarrow> go_type" where
  "type_of (VBool b) = TBool"
| "type_of (VInt n) = TInt"
| "type_of (VFloat x) = TFloat64"
| "type_of (VString s) = TString"
| "type_of (VArray xs) = TSlice"
| "type_of (VMap m) = TMap"
| "type_of VNil = TInterface"

definition AssignableTo :: "go_type \<Rightarrow> go_type \<Rightarrow> bool" where
  "AssignableTo t u = (t = u \<or> u = TInterface)"

definition ConvertibleTo :: "go_type \<Rightarrow> go_type \<Rightarrow> bool" where
  "ConvertibleTo t u =
    (t = u \<or> u = TInterface
     \<or> (t = TInt \<and> (u = TFloat64 \<or> u = TString))
     \<or> (t = TFloat64 \<and> u = TInt))"

text \<open>The string \<^verbatim>\<open>string(rune(n))\<close> of an \<^verbatim>\<open>int\<close>: its UTF-8 encoding, or U+FFFD.\<close>

definition rune_string :: "64 word \<Rightarrow> string" where
  "rune_string n =
    (let i = sint n in
     if i < 0 \<or> 0x10FFFF < i \<or> (0xD800 \<le> i \<and> i \<le> 0xDFFF)
       then [CHR 0xEF, CHR 0xBF, CHR 0xBD]
     else if i < 0x80 then [char_of i]
     else if i < 0x800 then [char_of (0xC0 + i div 64), char_of (0x80 + i mod 64)]
     else if i < 0x10000 then
       [char_of (0xE0 + i div 4096), char_of (0x80 + (i div 64) mod 64),
        char_of (0x80 + i mod 64)]
     else
       [char_of (0xF0 + i div 262144), char_of (0x80 + (i div 4096) mod 64),
        char_of (0x80 + (i div 64) mod 64), char_of (0x80 + i mod 64)])"

text \<open>\<^verbatim>\<open>fv.Convert(field.Type())\<close>, on the pairs for which \<^verbatim>\<open>ConvertibleTo\<close> holds.\<close>

definition Convert :: "env \<Rightarrow> jval \<Rightarrow> go_type \<Rightarrow> jval" where
  "Convert e v u =
    (case (v, u) of
       (VInt n, TFloat64) \<Rightarrow> VFloat (int_to_float e n)
     | (VInt n, TString) \<Rightarrow> VString (rune_string n)
     | (VFloat x, TInt) \<Rightarrow> VInt (float_to_int e x)
     | _ \<Rightarrow> v)"

text \<open>
  \<^verbatim>\<open>Value.FieldByNameFunc\<close> on a record without embedded records: the field whose name
  matches, when exactly one does; the zero \<^verbatim>\<open>Value\<close> otherwise.
\<close>

definition FieldByNameFunc :: "struct_field list \<Rightarrow> (string \<Rightarrow> bool) \<Rightarrow> nat option" where
  "FieldByNameFunc fs match =
    (case filter (\<lambda>i. match (field_name (fs ! i))) [0..<length fs] of
       [i] \<Rightarrow> Some i
     | _ \<Rightarrow> None)"

text \<open>The body of the loop \<^verbatim>\<open>for k, val := range i\<close>.\<close>

definition ToModel_entry :: "env \<Rightarrow> struct_field list \<Rightarrow> string \<Rightarrow> jval \<Rightarrow> struct_field list" where
  "ToModel_entry e fs k v =
    (case FieldByNameFunc fs (\<lambda>n. stringsEqualFold n k) of
       None \<Rightarrow> fs
     | Some i \<Rightarrow>
         if \<not> exported (fs ! i) then fs
         else if v = VNil then fs
         else if AssignableTo (type_of v) (field_type (fs ! i))
           then fs[i := (fs ! i)\<lparr> field_value := v \<rparr>]
         else if ConvertibleTo (type_of v) (field_type (fs ! i))
           then fs[i := (fs ! i)\<lparr> field_value := Convert e v (field_type (fs ! i)) \<rparr>]
         else fs)"

text \<open>
  The loop, over the entries of the map in the order the run of the program meets them.
  On a pointer to something that is no record the first \<^verbatim>\<open>FieldByNameFunc\<close> panics.
\<close>

fun ToModel_loop :: "env \<Rightarrow> Input \<Rightarrow> dest \<Rightarrow> dest call" where
  "ToModel_loop e [] d = Return d"
| "ToModel_loop e (kv # rest) (PointerToStruct fs) =
     ToModel_loop e rest (PointerToStruct (ToModel_entry e fs (fst kv) (snd kv)))"
| "ToModel_loop e (kv # rest) d = Panic"

text \<open>\<^verbatim>\<open>ToModel\<close>: the guard \<^verbatim>\<open>v.Kind() != reflect.Ptr || v.IsNil()\<close>, then the loop.\<close>

definition ToModel :: "env \<Rightarrow> Input \<Rightarrow> dest \<Rightarrow> dest call" where
  "ToModel e i dst =
    (case dst of
       NilInterface \<Rightarrow> Panic
     | NonPointer \<Rightarrow> Panic
     | NilPointer \<Rightarrow> Panic
     | _ \<Rightarrow> ToModel_loop e i dst)"

text \<open>
  What the description of \<^verbatim>\<open>ToModel\<close> promises for field \<open>j\<close> of the record: if it is the
  one field found under its own key and it is writable, and the input has a non-nil value
  under that key, the value is copied when its type is assignable, converted when it is
  convertible; in every other case the field stays as it was.
\<close>

definition described_field :: "env \<Rightarrow> Input \<Rightarrow> struct_field list \<Rightarrow> nat \<Rightarrow> struct_field" where
  "described_field e i fs j =
    (let fld = fs ! j; k = toSnakeCase (field_name fld) in
     if FieldByNameFunc fs (\<lambda>n. stringsEqualFold n k) = Some j \<and> exported fld then
       (case map_of i k of
          None \<Rightarrow> fld
        | Some v \<Rightarrow>
            if v = VNil then fld
            else if AssignableTo (type_of v) (field_type fld) then fld\<lparr> field_value := v \<rparr>
            else if ConvertibleTo (type_of v) (field_type fld)
              then fld\<lparr> field_value := Convert e v (field_type fld) \<rparr>
            else fld)
     else fld)"

section \<open>The presentation engine\<close>

text \<open>
  The values \<^verbatim>\<open>Present\<close> meets through package \<^verbatim>\<open>reflect\<close>: the nil interface, scalars,
  pointers (\<open>None\<close> is the nil pointer), records as the list of their fields (name, whether
  exported, value), slices and \<^verbatim>\<open>map[string]any\<close> (\<open>None\<close> is the nil slice or map).
  \<open>GInterface x\<close> is a record field of interface type holding the non-nil value \<open>x\<close>; the
  nil interface is \<open>GNil\<close>.
\<close>

datatype gval =
    GNil
  | GBool bool
  | GInt "64 word"
  | GFloat float64
  | GString string
  | GPtr "gval option"
  | GInterface gval
  | GStruct "(string \<times> bool \<times> gval) list"
  | GSlice "gval list option"
  | GMap "(string \<times> gval) list option"

text \<open>\<^verbatim>\<open>type H map[string]any\<close>, the options and the output of \<^verbatim>\<open>Present\<close>.\<close>

type_synonym H = "(string \<times> gval) list"

text \<open>
  \<^verbatim>\<open>type EntityField struct\<close>, without \<^verbatim>\<open>Desc\<close> and \<^verbatim>\<open>Example\<close>, which \<^verbatim>\<open>Present\<close> never
  reads. \<open>FieldName\<close> is the field \<^verbatim>\<open>Name\<close>. \<^verbatim>\<open>Presenter *Entity\<close> is \<open>None\<close> for nil and
  otherwise the \<^verbatim>\<open>Fields\<close> of the presenter pointed to; \<^verbatim>\<open>Func\<close> and \<^verbatim>\<open>Condition\<close> are \<open>None\<close>
  for nil, and are taken to return.
\<close>

datatype EntityField = EntityField
  (FieldName: string)
  (Presenter: "EntityField list option")
  (Func: "(gval \<Rightarrow> gval) option")
  (JSONKey: string)
  (Condition: "(gval \<Rightarrow> H \<Rightarrow> bool) option")
  (Default: gval)

text \<open>\<^verbatim>\<open>Value.IsZero\<close>: an interface field is zero only when nil, a record when all its fields are.\<close>

fun IsZero :: "gval \<Rightarrow> bool" where
  "IsZero GNil = True"
| "IsZero (GBool b) = (\<not> b)"
| "IsZero (GInt n) = (n = 0)"
| "IsZero (GFloat x) = (x = Finite 0)"
| "IsZero (GString s) = (s = [])"
| "IsZero (GPtr p) = (p = None)"
| "IsZero (GInterface x) = False"
| "IsZero (GStruct fs) = list_all (\<lambda>fld. IsZero (snd (snd fld))) fs"
| "IsZero (GSlice s) = (s = None)"
| "IsZero (GMap m) = (m = None)"

text \<open>\<^verbatim>\<open>fieldVal.Kind() == reflect.Ptr && fieldVal.IsNil()\<close>.\<close>

definition IsNilPtr :: "gval \<Rightarrow> bool" where
  "IsNilPtr x = (case x of GPtr None \<Rightarrow> True | _ \<Rightarrow> False)"

text \<open>\<^verbatim>\<open>Value.Interface\<close>: of an interface field, the value it holds.\<close>

definition Interface :: "gval \<Rightarrow> gval" where
  "Interface x = (case x of GInterface y \<Rightarrow> y | _ \<Rightarrow> x)"

text \<open>
  The value \<^verbatim>\<open>v\<close> that \<^verbatim>\<open>Present\<close> reads fields from: \<^verbatim>\<open>reflect.ValueOf(obj)\<close>, dereferenced
  once if it is a pointer; \<open>None\<close> is the zero \<^verbatim>\<open>Value\<close> a nil pointer gives.
\<close>

definition Elem :: "gval \<Rightarrow> gval option" where
  "Elem obj = (case obj of GPtr p \<Rightarrow> p | _ \<Rightarrow> Some obj)"

text \<open>
  The \<^verbatim>\<open>if f.Func != nil ... else ...\<close> that computes \<^verbatim>\<open>val\<close>. \<^verbatim>\<open>FieldByName\<close> panics unless
  \<^verbatim>\<open>v\<close> is a record, and \<^verbatim>\<open>Interface\<close> panics on a field that is not exported.
\<close>

definition resolve :: "gval \<Rightarrow> EntityField \<Rightarrow> gval call" where
  "resolve obj f =
    (case Func f of
       Some fn \<Rightarrow> Return (fn obj)
     | None \<Rightarrow>
        (case Elem obj of
           Some (GStruct fs) \<Rightarrow>
             (case map_of fs (FieldName f) of
                None \<Rightarrow> Return (Default f)
              | Some fld \<Rightarrow>
                  if IsNilPtr (snd fld) \<or> IsZero (snd fld) then Return (Default f)
                  else if fst fld then Return (Interface (snd fld))
                  else Panic)
         | _ \<Rightarrow> Panic))"

text \<open>A loop that appends the result of each iteration and stops at the first panic.\<close>

fun collect :: "'a call list \<Rightarrow> 'a list call" where
  "collect [] = Return []"
| "collect (c # cs) =
    (case c of
       Panic \<Rightarrow> Panic
     | Return x \<Rightarrow> (case collect cs of Panic \<Rightarrow> Panic | Return xs \<Rightarrow> Return (x # xs)))"

text \<open>The \<^verbatim>\<open>H\<close> that \<^verbatim>\<open>Present\<close> returns, stored into an \<^verbatim>\<open>any\<close>.\<close>

definition as_H :: "H call \<Rightarrow> gval call" where
  "as_H c = (case c of Panic \<Rightarrow> Panic | Return h \<Rightarrow> Return (GMap (Some h)))"

text \<open>
  \<^verbatim>\<open>serializeNested\<close>; its argument \<open>present\<close> stands for \<^verbatim>\<open>Present(_, presenter, opts)\<close>.
  An element of a slice that is no pointer is copied behind a fresh pointer first, and
  \<^verbatim>\<open>itemVal.Type()\<close> panics there on a nil element.
\<close>

definition serializeNested :: "gval \<Rightarrow> (gval \<Rightarrow> H call) \<Rightarrow> gval call" where
  "serializeNested val present =
    (case val of
       GNil \<Rightarrow> Return GNil
     | GSlice s \<Rightarrow>
        (case collect
                (map (\<lambda>item.
                       case item of
                         GPtr p \<Rightarrow> as_H (present item)
                       | GNil \<Rightarrow> Panic
                       | _ \<Rightarrow> as_H (present (GPtr (Some item))))
                   (case s of None \<Rightarrow> [] | Some xs \<Rightarrow> xs)) of
           Panic \<Rightarrow> Panic
         | Return arr \<Rightarrow> Return (GSlice (Some arr)))
     | GPtr p \<Rightarrow> as_H (present val)
     | GStruct fs \<Rightarrow> as_H (present val)
     | GMap m \<Rightarrow>
        (case m of
           None \<Rightarrow> Return (GMap None)
         | Some kvs \<Rightarrow>
            (case collect
                    (map (\<lambda>kv.
                           case snd kv of
                             GStruct fs \<Rightarrow>
                               (case as_H (present (snd kv)) of
                                  Panic \<Rightarrow> Panic | Return x \<Rightarrow> Return (fst kv, x))
                           | GPtr p \<Rightarrow>
                               (case as_H (present (snd kv)) of
                                  Panic \<Rightarrow> Panic | Return x \<Rightarrow> Return (fst kv, x))
                           | _ \<Rightarrow> Return kv)
                       kvs) of
               Panic \<Rightarrow> Panic
             | Return kvs' \<Rightarrow> Return (GMap (Some kvs'))))
     | _ \<Rightarrow> Return val)"

text \<open>
  The body of the loop over \<^verbatim>\<open>p.Fields\<close>; \<open>nested\<close> stands for
  \<^verbatim>\<open>Present(_, f.Presenter, opts)\<close>.
\<close>

definition present_field ::
  "gval \<Rightarrow> H \<Rightarrow> EntityField \<Rightarrow> H \<Rightarrow> (gval \<Rightarrow> H call) \<Rightarrow> H call" where
  "present_field obj opts f out nested =
    (if (case Condition f of Some cond \<Rightarrow> \<not> cond obj opts | None \<Rightarrow> False) then Return out
     else
       (case resolve obj f of
          Panic \<Rightarrow> Panic
        | Return val \<Rightarrow>
           (if Presenter f \<noteq> None then
              (case serializeNested val nested of
                 Panic \<Rightarrow> Panic
               | Return val' \<Rightarrow> Return (AList.update (JSONKey f) val' out))
            else Return (AList.update (JSONKey f) val out))))"

text \<open>\<^verbatim>\<open>Present\<close>, and its loop over the descriptors.\<close>

fun Present :: "gval \<Rightarrow> EntityField list \<Rightarrow> H \<Rightarrow> H call"
  and Present_fields :: "gval \<Rightarrow> EntityField list \<Rightarrow> H \<Rightarrow> H \<Rightarrow> H call"
where
  "Present obj p opts = (if obj = GNil then Return [] else Present_fields obj p opts [])"
| "Present_fields obj [] opts out = Return out"
| "Present_fields obj (EntityField name pres fn key cond dflt # fs) opts out =
    (case present_field obj opts (EntityField name pres fn key cond dflt) out
            (case pres of
               None \<Rightarrow> (\<lambda>x. Panic)
             | Some sub \<Rightarrow> (\<lambda>x. Present x sub opts)) of
       Panic \<Rightarrow> Panic
     | Return out' \<Rightarrow> Present_fields obj fs opts out')"


section \<open>A concrete environment\<close>

text \<open>
  An environment on which the model can be run. Each component agrees with the real
  collaborator on the inputs of the examples below and is arbitrary elsewhere: the rule
  engine knows the one tag \<^verbatim>\<open>min=10\<close> on an \<^verbatim>\<open>int\<close>; a float64 out of range converts to the
  least \<^verbatim>\<open>int\<close>, as on amd64; the decoder knows the text \<^verbatim>\<open>null\<close>.
\<close>

definition sample_env :: env where
  "sample_env =
    \<lparr> validate_var = (\<lambda>x tag.
         if tag = ''min=10'' then
           (case x of VInt n \<Rightarrow> if sint n < 10 then Some ''min'' else None | _ \<Rightarrow> None)
         else None),
      conv_out_of_range = (\<lambda>x. word_of_int (- (2 ^ 63))),
      nearest_float64 = of_int,
      sprintf_f10 = (\<lambda>x. []),
      json_unmarshal = (\<lambda>s. if s = ''null'' then Some VNil else None) \<rparr>"

section \<open>Properties of the bind/validate engine\<close>

subsection \<open>Which keys a step touches\<close>

lemma map_of_passthrough:
  "map_of (passthrough raw out) k =
    (case map_of out k of Some v \<Rightarrow> Some v | None \<Rightarrow> map_of raw k)"
proof (induction raw arbitrary: out)
  case Nil
  then show ?case by (simp split: option.splits)
next
  case (Cons kv raw)
  then show ?case
    by (cases kv) (auto simp: update_conv' split: option.splits)
qed

lemma bindField_other_key:
  assumes "bindField e f raw mode out = Bound out'" and "k \<noteq> Name f"
  shows "map_of out' k = map_of out k"
  using assms
  by (auto simp: bindField_def update_conv' split: option.splits step.splits if_splits)

lemma bindFields_other_key:
  assumes "bindFields e fs raw mode out = Bound out'" and "k \<notin> Name ` set fs"
  shows "map_of out' k = map_of out k"
  using assms
proof (induction fs arbitrary: out)
  case Nil
  then show ?case by simp
next
  case (Cons f fs)
  from Cons.prems(1) obtain mid where
    mid: "bindField e f raw mode out = Bound mid" "bindFields e fs raw mode mid = Bound out'"
    by (auto split: step.splits)
  from Cons.prems(2) have "k \<noteq> Name f" "k \<notin> Name ` set fs" by auto
  with mid Cons.IH show ?case
    by (metis bindField_other_key)
qed

subsection \<open>Pass-through of undeclared keys\<close>

text \<open>
  Claim C1. Whenever \<^verbatim>\<open>BindAndValidate\<close> succeeds, a key that is the name of no field of the
  schema reads in the bound output exactly as it reads in the raw map: a key of the raw
  map comes out with its value unchanged (and a key absent from the raw map stays absent).
\<close>

theorem passthrough_of_undeclared_keys:
  assumes "BindAndValidate e p raw mode = Return (Some out, None)"
    and "k \<notin> Name ` set p"
  shows "map_of out k = map_of raw k"
proof -
  from assms(1) obtain bound where
    b: "bindFields e p raw mode [] = Bound bound" and out: "out = passthrough raw bound"
    by (auto simp: BindAndValidate_def split: step.splits)
  from bindFields_other_key[OF b assms(2)] have "map_of bound k = None" by simp
  with out show ?thesis by (simp add: map_of_passthrough)
qed

theorem passthrough_of_undeclared_keys_witness:
  "BindAndValidate sample_env
      [Param ''name'' String [] [] None [], Param ''age'' Integer [] [] None []]
      [(''name'', VString ''John''), (''age'', VFloat (Finite 30)),
       (''extra'', VString ''ignored'')]
      ''create''
    = Return (Some [(''name'', VString ''John''), (''age'', VInt 30),
                    (''extra'', VString ''ignored'')], None)
   \<and> ''extra'' \<notin> Name ` set [Param ''name'' String [] [] None [], Param ''age'' Integer [] [] None []]
   \<and> map_of [(''name'', VString ''John''), (''age'', VInt 30), (''extra'', VString ''ignored'')]
        ''extra''
      = map_of [(''name'', VString ''John''), (''age'', VFloat (Finite 30)),
                (''extra'', VString ''ignored'')] ''extra''"
proof -
  have run: "BindAndValidate sample_env
      [Param ''name'' String [] [] None [], Param ''age'' Integer [] [] None []]
      [(''name'', VString ''John''), (''age'', VFloat (Finite 30)),
       (''extra'', VString ''ignored'')]
      ''create''
    = Return (Some [(''name'', VString ''John''), (''age'', VInt 30),
                    (''extra'', VString ''ignored'')], None)"
    by code_simp
  have undeclared:
    "''extra'' \<notin> Name ` set [Param ''name'' String [] [] None [], Param ''age'' Integer [] [] None []]"
    by simp
  from passthrough_of_undeclared_keys[OF run undeclared] run undeclared
  show ?thesis by blast
qed

subsection \<open>The loop and its first failure\<close>

lemma bindFields_append:
  "bindFields e (xs @ ys) raw mode out =
    (case bindFields e xs raw mode out of
       Aborted \<Rightarrow> Aborted
     | Failed err \<Rightarrow> Failed err
     | Bound mid \<Rightarrow> bindFields e ys raw mode mid)"
  by (induction xs arbitrary: out) (auto split: step.splits)

lemma isRequired_iff: "isRequired rs mode \<longleftrightarrow> (\<exists>r \<in> set rs. TrimSpace r = mode)"
  by (induction rs) auto

lemma checked_not_missing: "checked e n t x \<noteq> Failed (MissingRequired a b)"
  by (simp add: checked_def split: option.splits)

lemma bindElems_not_missing: "bindElems e sub n mode xs arr \<noteq> Failed (MissingRequired a b)"
  by (induction xs arbitrary: arr)
     (auto split: jval.splits call.splits prod.splits option.splits)

lemma bindElems_failed:
  "bindElems e sub n mode xs arr = Failed err \<Longrightarrow> err \<noteq> MissingRequired a b"
  using bindElems_not_missing by blast

lemma bindValue_not_missing: "bindValue e f v mode \<noteq> Failed (MissingRequired a b)"
  unfolding bindValue_def
  by (auto simp: checked_not_missing
      split: jval.splits call.splits prod.splits option.splits step.splits
      dest: bindElems_failed)

lemma bindField_missing:
  assumes "bindField e f raw mode out = Failed (MissingRequired a b)"
  shows "map_of raw a = None \<and> a = Name f \<and> b = mode"
  using assms bindValue_not_missing[of e f _ mode a b]
  by (auto simp: bindField_def split: option.splits step.splits if_splits)

lemma bindFields_missing:
  assumes "bindFields e fs raw mode out = Failed (MissingRequired a b)"
  shows "map_of raw a = None"
  using assms
proof (induction fs arbitrary: out)
  case Nil
  then show ?case by simp
next
  case (Cons f fs)
  then show ?case
    by (auto split: step.splits dest: bindField_missing)
qed

lemma bindField_keys_from_raw:
  assumes "bindField e f raw mode out = Bound out'" and "map_of raw k = None"
  shows "map_of out' k = map_of out k"
  using assms
  by (auto simp: bindField_def update_conv' split: option.splits step.splits if_splits)

lemma bindFields_keys_from_raw:
  assumes "bindFields e fs raw mode out = Bound out'" and "map_of raw k = None"
  shows "map_of out' k = map_of out k"
  using assms
proof (induction fs arbitrary: out)
  case Nil
  then show ?case by simp
next
  case (Cons f fs)
  from Cons.prems(1) obtain mid where
    mid: "bindField e f raw mode out = Bound mid" "bindFields e fs raw mode mid = Bound out'"
    by (auto split: step.splits)
  with Cons.IH Cons.prems(2) show ?case
    by (metis bindField_keys_from_raw)
qed

subsection \<open>Required fields\<close>

text \<open>
  Claim C2, as amended. The claim as written fails twice: the first failing field in schema
  order decides the error, so a later required field that is absent is not the one named;
  and an entry of \<^verbatim>\<open>RequiredOn\<close> is compared with the mode after \<^verbatim>\<open>strings.TrimSpace\<close> of the
  entry only, so a mode with white space around it is never required, and an entry
  \<^verbatim>\<open>"create "\<close> makes the field required on \<^verbatim>\<open>"create"\<close>. What holds:
  \<^item> if every descriptor before \<open>f\<close> binds, some entry of \<open>f\<close>'s \<^verbatim>\<open>RequiredOn\<close> equals the mode
    once trimmed, and \<open>f\<close>'s name is absent from the raw map, \<^verbatim>\<open>BindAndValidate\<close> returns the
    missing-required error naming \<open>f\<close> and the mode;
  \<^item> for a name present in the raw map, \<^verbatim>\<open>BindAndValidate\<close> never returns a missing-required
    error naming it, for any mode;
  \<^item> a descriptor whose name is absent and none of whose entries equals the mode once
    trimmed leaves the output as it is and raises no error;
  \<^item> when \<^verbatim>\<open>BindAndValidate\<close> succeeds, a key absent from the raw map is absent from the
    output.
\<close>

theorem required_on_mode:
  "(bindFields e pre raw mode [] = Bound mid
      \<and> (\<exists>r \<in> set (RequiredOn f). TrimSpace r = mode) \<and> map_of raw (Name f) = None
     \<longrightarrow> BindAndValidate e (pre @ f # post) raw mode
          = Return (None, Some (MissingRequired (Name f) mode)))
   \<and> (map_of raw n \<noteq> None
     \<longrightarrow> BindAndValidate e p raw mode \<noteq> Return (res, Some (MissingRequired n m)))
   \<and> (map_of raw (Name g) = None \<and> \<not> (\<exists>r \<in> set (RequiredOn g). TrimSpace r = mode)
     \<longrightarrow> bindField e g raw mode out = Bound out)
   \<and> (BindAndValidate e q raw mode = Return (Some bound, None) \<and> map_of raw k = None
     \<longrightarrow> map_of bound k = None)"
proof (intro conjI impI)
  assume a: "bindFields e pre raw mode [] = Bound mid
      \<and> (\<exists>r \<in> set (RequiredOn f). TrimSpace r = mode) \<and> map_of raw (Name f) = None"
  then have "bindField e f raw mode mid = Failed (MissingRequired (Name f) mode)"
    by (simp add: bindField_def isRequired_iff)
  with a show "BindAndValidate e (pre @ f # post) raw mode
          = Return (None, Some (MissingRequired (Name f) mode))"
    by (simp add: BindAndValidate_def bindFields_append)
next
  assume "map_of raw n \<noteq> None"
  then show "BindAndValidate e p raw mode \<noteq> Return (res, Some (MissingRequired n m))"
    by (auto simp: BindAndValidate_def split: step.splits dest: bindFields_missing)
next
  assume "map_of raw (Name g) = None \<and> \<not> (\<exists>r \<in> set (RequiredOn g). TrimSpace r = mode)"
  then show "bindField e g raw mode out = Bound out"
    by (simp add: bindField_def isRequired_iff)
next
  assume a: "BindAndValidate e q raw mode = Return (Some bound, None) \<and> map_of raw k = None"
  then obtain o1 where o1: "bindFields e q raw mode [] = Bound o1" "bound = passthrough raw o1"
    by (auto simp: BindAndValidate_def split: step.splits)
  from bindFields_keys_from_raw[OF o1(1)] a have "map_of o1 k = None" by simp
  with o1 a show "map_of bound k = None"
    by (simp add: map_of_passthrough)
qed

theorem required_on_mode_witness:
  "bindFields sample_env [Param ''name'' String [] [''create''] None []]
       [(''name'', VString ''John'')] ''create'' [] = Bound [(''name'', VString ''John'')]
   \<and> (\<exists>r \<in> set (RequiredOn (Param ''email'' String [] ['' create ''] None [])).
         TrimSpace r = ''create'')
   \<and> map_of [(''name'', VString ''John'')] (Name (Param ''email'' String [] ['' create ''] None []))
       = None
   \<and> BindAndValidate sample_env
        ([Param ''name'' String [] [''create''] None []]
          @ Param ''email'' String [] ['' create ''] None [] # [])
        [(''name'', VString ''John'')] ''create''
      = Return (None, Some (MissingRequired ''email'' ''create''))
   \<and> map_of [(''name'', VString ''John'')] ''name'' \<noteq> None
   \<and> BindAndValidate sample_env [Param ''name'' String [] [''create''] None []]
        [(''name'', VString ''John'')] ''create''
      \<noteq> Return (None, Some (MissingRequired ''name'' ''create''))
   \<and> \<not> (\<exists>r \<in> set (RequiredOn (Param ''nick'' String [] [''update''] None [])).
         TrimSpace r = ''create'')
   \<and> bindField sample_env (Param ''nick'' String [] [''update''] None [])
        [(''name'', VString ''John'')] ''create'' [] = Bound []
   \<and> BindAndValidate sample_env [Param ''nick'' String [] [''update''] None []]
        [(''name'', VString ''John'')] ''create''
      = Return (Some [(''name'', VString ''John'')], None)
   \<and> map_of [(''name'', VString ''John'')] ''nick'' = None"
proof -
  have pre: "bindFields sample_env [Param ''name'' String [] [''create''] None []]
       [(''name'', VString ''John'')] ''create'' [] = Bound [(''name'', VString ''John'')]"
    by code_simp
  have req: "\<exists>r \<in> set (RequiredOn (Param ''email'' String [] ['' create ''] None [])).
         TrimSpace r = ''create''"
    by code_simp
  have absent:
    "map_of [(''name'', VString ''John'')] (Name (Param ''email'' String [] ['' create ''] None []))
       = None"
    by simp
  have present: "map_of [(''name'', VString ''John'')] ''name'' \<noteq> None"
    by simp
  have notreq: "\<not> (\<exists>r \<in> set (RequiredOn (Param ''nick'' String [] [''update''] None [])).
         TrimSpace r = ''create'')"
    by code_simp
  have absent': "map_of [(''name'', VString ''John'')]
       (Name (Param ''nick'' String [] [''update''] None [])) = None"
    by simp
  have ok: "BindAndValidate sample_env [Param ''nick'' String [] [''update''] None []]
        [(''name'', VString ''John'')] ''create''
      = Return (Some [(''name'', VString ''John'')], None)"
    by code_simp
  have absent'': "map_of [(''name'', VString ''John'')] ''nick'' = None"
    by simp
  from required_on_mode[where e = sample_env
      and pre = "[Param ''name'' String [] [''create''] None []]"
      and raw = "[(''name'', VString ''John'')]" and mode = "''create''"
      and mid = "[(''name'', VString ''John'')]"
      and f = "Param ''email'' String [] ['' create ''] None []" and post = "[]"
      and n = "''name''" and p = "[Param ''name'' String [] [''create''] None []]"
      and res = None and m = "''create''"
      and g = "Param ''nick'' String [] [''update''] None []" and out = "[]"
      and q = "[Param ''nick'' String [] [''update''] None []]"
      and bound = "[(''name'', VString ''John'')]" and k = "''nick''"]
    pre req absent present notreq absent' ok absent''
  show ?thesis by simp
qed

text \<open>
  The claim as written, refuted: with \<^verbatim>\<open>a\<close> and \<^verbatim>\<open>b\<close> both required on \<^verbatim>\<open>create\<close> and both
  absent, the error names \<^verbatim>\<open>a\<close>, not \<^verbatim>\<open>b\<close>; a field whose \<^verbatim>\<open>RequiredOn\<close> contains the mode
  \<^verbatim>\<open>" create"\<close> itself is not required on it; and a field whose \<^verbatim>\<open>RequiredOn\<close> does not
  contain \<^verbatim>\<open>"create"\<close> (it contains \<^verbatim>\<open>"create "\<close>) is required on it.
\<close>

theorem required_on_mode_counterexample:
  "''create'' \<in> set (RequiredOn (Param ''b'' String [] [''create''] None []))
   \<and> map_of ([] :: Input) ''b'' = None
   \<and> BindAndValidate sample_env
        [Param ''a'' String [] [''create''] None [], Param ''b'' String [] [''create''] None []]
        [] ''create''
      = Return (None, Some (MissingRequired ''a'' ''create''))
   \<and> '' create'' \<in> set (RequiredOn (Param ''a'' String [] ['' create''] None []))
   \<and> BindAndValidate sample_env [Param ''a'' String [] ['' create''] None []] [] '' create''
      = Return (Some [], None)
   \<and> ''create'' \<notin> set (RequiredOn (Param ''a'' String [] [''create ''] None []))
   \<and> BindAndValidate sample_env [Param ''a'' String [] [''create ''] None []] [] ''create''
      = Return (None, Some (MissingRequired ''a'' ''create''))"
  by code_simp

subsection \<open>Failure aborts the call\<close>



subsection \<open>Nested validation against the top-level algorithm\<close>

text \<open>
  Claim C4, at a failing input. A nested schema declares \<^verbatim>\<open>active\<close> as \<^verbatim>\<open>Boolean\<close> and the
  nested object carries the string \<^verbatim>\<open>"yes"\<close> there: \<^verbatim>\<open>validateJSON\<close> binds the string, where
  \<^verbatim>\<open>BindAndValidate\<close> with the same schema on the same object returns the wrong-type error;
  and so a top-level call lets the nested object through.
\<close>

theorem nested_validation_skips_type_checks:
  "validateJSON e [Param ''active'' Boolean [] [] None []] [(''active'', VString ''yes'')] mode
     = Return (Some [(''active'', VString ''yes'')], None)
   \<and> BindAndValidate e [Param ''active'' Boolean [] [] None []] [(''active'', VString ''yes'')] mode
     = Return (None, Some (MustBe ''active'' ''boolean''))
   \<and> BindAndValidate e
        [Param ''prefs'' JSON [] [] (Some [Param ''active'' Boolean [] [] None []]) []]
        [(''prefs'', VMap [(''active'', VString ''yes'')])] mode
     = Return (Some [(''prefs'', VMap [(''active'', VString ''yes'')])], None)"
  by (simp add: roundtrip_map_def validateJSON_field_def validateJSON_value_def
      BindAndValidate_def bindField_def bindValue_def as_map_def)

subsection \<open>Integer fields\<close>

lemma sint_trunc_in_range:
  assumes "- (2 ^ 63) \<le> i" and "i < 2 ^ 63"
  shows "sint (word_of_int i :: 64 word) = i"
  using assms by (simp add: signed_of_int signed_take_bit_int_eq_self)




text \<open>
  Claim C10. On an \<^verbatim>\<open>Integer\<close> field a native \<^verbatim>\<open>int\<close> is bound as it is, whatever the
  validation tag and whatever the rule engine would say of it: the result does not depend
  on the rule engine. A schema of that one field binds the one-entry map to itself. The
  rule is applied on the float64 path: when the rule engine rejects the converted integer,
  the field fails with the validation error.
\<close>

theorem native_int_skips_validation:
  assumes "Type f = Integer"
  shows "(map_of raw (Name f) = Some (VInt n)
           \<longrightarrow> bindField e f raw mode out = Bound (AList.update (Name f) (VInt n) out))
       \<and> (BindAndValidate e [f] [(Name f, VInt n)] mode = Return (Some [(Name f, VInt n)], None))
       \<and> (map_of raw (Name f) = Some (VFloat x) \<and> Validate f \<noteq> []
            \<and> validate_var e (VInt (float_to_int e x)) (Validate f) = Some msg
           \<longrightarrow> bindField e f raw mode out
               = Failed (ValidationFailed (Name f) (RuleViolation msg)))"
  using assms
  by (simp add: BindAndValidate_def bindField_def bindValue_def checked_def)

theorem native_int_skips_validation_witness:
  "Type (Param ''age'' Integer ''min=10'' [] None []) = Integer
   \<and> validate_var sample_env (VInt 5) ''min=10'' = Some ''min''
   \<and> BindAndValidate sample_env [Param ''age'' Integer ''min=10'' [] None []]
        [(''age'', VInt 5)] ''create''
      = Return (Some [(''age'', VInt 5)], None)
   \<and> bindField sample_env (Param ''age'' Integer ''min=10'' [] None [])
        [(''age'', VFloat (Finite 5))] ''create'' []
      = Failed (ValidationFailed ''age'' (RuleViolation ''min''))"
proof -
  have ty: "Type (Param ''age'' Integer ''min=10'' [] None []) = Integer"
    by simp
  have rule: "validate_var sample_env (VInt 5) ''min=10'' = Some ''min''"
    by code_simp
  have fl: "map_of [(''age'', VFloat (Finite 5))] (Name (Param ''age'' Integer ''min=10'' [] None []))
        = Some (VFloat (Finite 5))
      \<and> Validate (Param ''age'' Integer ''min=10'' [] None []) \<noteq> []
      \<and> validate_var sample_env (VInt (float_to_int sample_env (Finite 5)))
           (Validate (Param ''age'' Integer ''min=10'' [] None [])) = Some ''min''"
    by code_simp
  from native_int_skips_validation[OF ty, where e = sample_env and n = 5 and mode = "''create''"
      and raw = "[(''age'', VFloat (Finite 5))]" and x = "Finite 5" and msg = "''min''"
      and out = "[]"] ty rule fl
  show ?thesis by simp
qed

subsection \<open>The unchecked type assertion of nested validation\<close>

text \<open>
  Claim C9. In \<^verbatim>\<open>validateJSON\<close> a \<^verbatim>\<open>JSON\<close> field with a nested schema whose value is not a
  mapping (an array, a string, a boolean) makes the call panic, also when it is reached
  from \<^verbatim>\<open>BindAndValidate\<close>; the top-level switch returns the wrong-type error where it does
  not accept the value.
\<close>

theorem nested_json_assertion_panics:
  "validateJSON e [Param ''child'' JSON [] [] (Some []) []]
       [(''child'', VArray [VString ''a''])] mode = Panic
   \<and> validateJSON e [Param ''child'' JSON [] [] (Some []) []]
       [(''child'', VString ''x'')] mode = Panic
   \<and> validateJSON e [Param ''child'' JSON [] [] (Some []) []]
       [(''child'', VBool True)] mode = Panic
   \<and> BindAndValidate e
        [Param ''outer'' JSON [] [] (Some [Param ''child'' JSON [] [] (Some []) []]) []]
        [(''outer'', VMap [(''child'', VArray [VString ''a''])])] mode = Panic
   \<and> BindAndValidate e [Param ''child'' JSON [] [] (Some []) []] [(''child'', VBool True)] mode
      = Return (None, Some (MustBe ''child'' ''json (object, array, or json string)''))"
  by (simp add: roundtrip_map_def validateJSON_field_def validateJSON_value_def
      BindAndValidate_def bindField_def bindValue_def)

section \<open>Properties of the schema builder\<close>

lemma Name_updateParent: "map Name (updateParent fp xs) = map Name xs"
  by (induction xs) auto

lemma updateParent_nth:
  assumes "distinct (map Name xs)" and "h < length xs" and "Name fp = Name (xs ! h)"
  shows "updateParent fp xs = xs[h := fp]"
  using assms
proof (induction xs arbitrary: h)
  case Nil
  then show ?case by simp
next
  case (Cons x xs)
  show ?case
  proof (cases h)
    case 0
    with Cons.prems show ?thesis by simp
  next
    case (Suc h')
    with Cons.prems have "Name (xs ! h') \<in> set (map Name xs)" by simp
    with Cons.prems Suc have "Name x \<noteq> Name fp" by auto
    with Cons Suc show ?thesis by simp
  qed
qed

lemma setter_names:
  assumes "\<And>p. Name (upd p) = Name p"
  shows "map Name (Fields (setter h upd b)) = map Name (Fields b)"
    and "map Name (handles (setter h upd b)) = map Name (handles b)"
  using assms by (auto simp: setter_def Let_def Name_updateParent map_update list_update_same_conv)

lemma setter_in_step:
  assumes "\<And>p. Name (upd p) = Name p" and "Fields b = handles b"
    and "distinct (map Name (Fields b))"
  shows "Fields (setter h upd b) = handles (setter h upd b)"
  using assms by (auto simp: setter_def Let_def updateParent_nth)

lemma perform_names:
  "map Name (Fields (perform c b)) = map Name (Fields b) @ declared [c]"
  by (cases c)
     (simp_all add: Requires_def Optional_def On_def set_Type_def set_Validate_def
        WithSchema_def SliceOf_def setter_names Let_def)

lemma perform_in_step:
  assumes "Fields b = handles b" and "distinct (map Name (Fields b))"
  shows "Fields (perform c b) = handles (perform c b)"
  using assms
  by (cases c)
     (simp_all add: Requires_def Optional_def On_def set_Type_def set_Validate_def
        WithSchema_def SliceOf_def setter_in_step Let_def)

lemma declared_Cons: "declared (c # cs) = declared [c] @ declared cs"
  by (cases c) simp_all

lemma run_names: "map Name (Fields (run cs b)) = map Name (Fields b) @ declared cs"
proof (induction cs arbitrary: b)
  case Nil
  then show ?case by simp
next
  case (Cons c cs)
  then show ?case
    using declared_Cons[of c cs] by (simp add: perform_names)
qed

lemma run_in_step:
  assumes "Fields b = handles b" and "distinct (map Name (Fields b) @ declared cs)"
  shows "Fields (run cs b) = handles (run cs b)"
  using assms
proof (induction cs arbitrary: b)
  case Nil
  then show ?case by simp
next
  case (Cons c cs)
  from Cons.prems(2) have d: "distinct (map Name (Fields b))" by simp
  have "Fields (perform c b) = handles (perform c b)"
    using Cons.prems(1) d by (rule perform_in_step)
  moreover have "distinct (map Name (Fields (perform c b)) @ declared cs)"
    using Cons.prems(2) declared_Cons[of c cs] by (simp add: perform_names)
  ultimately show ?case
    using Cons.IH by simp
qed





section \<open>Properties of \<^verbatim>\<open>ToModel\<close>\<close>

lemma FieldByNameFunc_SomeD:
  assumes "FieldByNameFunc fs match = Some i"
  shows "i < length fs \<and> match (field_name (fs ! i))"
proof -
  from assms have "filter (\<lambda>i. match (field_name (fs ! i))) [0..<length fs] = [i]"
    by (auto simp: FieldByNameFunc_def split: list.splits)
  then have "i \<in> set (filter (\<lambda>i. match (field_name (fs ! i))) [0..<length fs])"
    by simp
  then show ?thesis by simp
qed

lemma FieldByNameFunc_names:
  assumes "map field_name fs' = map field_name fs"
  shows "FieldByNameFunc fs' match = FieldByNameFunc fs match"
proof -
  from assms have len: "length fs' = length fs"
    by (metis length_map)
  have "\<And>i. i < length fs \<Longrightarrow> field_name (fs' ! i) = field_name (fs ! i)"
    using assms len by (metis nth_map)
  then have "filter (\<lambda>i. match (field_name (fs' ! i))) [0..<length fs]
      = filter (\<lambda>i. match (field_name (fs ! i))) [0..<length fs]"
    by (intro filter_cong) auto
  with len show ?thesis by (simp add: FieldByNameFunc_def)
qed

lemma ToModel_entry_length [simp]: "length (ToModel_entry e fs k v) = length fs"
  by (simp add: ToModel_entry_def split: option.splits)

lemma ToModel_entry_names [simp]:
  "map field_name (ToModel_entry e fs k v) = map field_name fs"
  by (auto simp: ToModel_entry_def map_update list_update_same_conv
      split: option.splits dest!: FieldByNameFunc_SomeD)

lemma ToModel_entry_nth:
  assumes "j < length fs"
  shows "ToModel_entry e fs k v ! j =
    (if FieldByNameFunc fs (\<lambda>n. stringsEqualFold n k) = Some j \<and> exported (fs ! j) \<and> v \<noteq> VNil
     then
       (if AssignableTo (type_of v) (field_type (fs ! j)) then (fs ! j)\<lparr> field_value := v \<rparr>
        else if ConvertibleTo (type_of v) (field_type (fs ! j))
          then (fs ! j)\<lparr> field_value := Convert e v (field_type (fs ! j)) \<rparr>
        else fs ! j)
     else fs ! j)"
proof (cases "FieldByNameFunc fs (\<lambda>n. stringsEqualFold n k)")
  case None
  then show ?thesis by (simp add: ToModel_entry_def)
next
  case (Some i)
  from FieldByNameFunc_SomeD[OF Some] have i: "i < length fs" by simp
  show ?thesis
  proof (cases "i = j")
    case True
    with Some i show ?thesis
      by (simp add: ToModel_entry_def)
  next
    case False
    with Some assms show ?thesis
      by (simp add: ToModel_entry_def)
  qed
qed

lemma ToModel_loop_struct:
  "ToModel_loop e i (PointerToStruct fs) =
    Return (PointerToStruct (foldl (\<lambda>fs kv. ToModel_entry e fs (fst kv) (snd kv)) fs i))"
  by (induction i arbitrary: fs) simp_all

lemma foldl_entry_length [simp]:
  "length (foldl (\<lambda>fs kv. ToModel_entry e fs (fst kv) (snd kv)) fs i) = length fs"
  by (induction i arbitrary: fs) simp_all

lemma described_field_step:
  assumes j: "j < length fs" and fresh: "k \<notin> fst ` set rest"
  shows "described_field e rest (ToModel_entry e fs k v) j = described_field e ((k, v) # rest) fs j"
proof -
  let ?fs1 = "ToModel_entry e fs k v"
  let ?kj = "toSnakeCase (field_name (fs ! j))"
  have name: "field_name (?fs1 ! j) = field_name (fs ! j)"
    using j by (metis ToModel_entry_names ToModel_entry_length nth_map)
  have found: "FieldByNameFunc ?fs1 (\<lambda>n. stringsEqualFold n ?kj)
      = FieldByNameFunc fs (\<lambda>n. stringsEqualFold n ?kj)"
    by (rule FieldByNameFunc_names) simp
  show ?thesis
  proof (cases "?kj = k")
    case True
    from fresh have "map_of rest k = None"
      by (simp add: map_of_eq_None_iff)
    with True have "described_field e rest ?fs1 j = ?fs1 ! j"
      by (simp add: described_field_def Let_def name)
    also have "\<dots> = described_field e ((k, v) # rest) fs j"
      using True j by (simp add: ToModel_entry_nth described_field_def Let_def)
    finally show ?thesis .
  next
    case False
    have "FieldByNameFunc fs (\<lambda>n. stringsEqualFold n k) \<noteq> Some j"
    proof
      assume "FieldByNameFunc fs (\<lambda>n. stringsEqualFold n k) = Some j"
      from FieldByNameFunc_SomeD[OF this] False show False
        by (simp add: stringsEqualFold_def)
    qed
    then have same: "?fs1 ! j = fs ! j"
      using j by (simp add: ToModel_entry_nth)
    from False have "map_of ((k, v) # rest) ?kj = map_of rest ?kj"
      by simp
    with same found show ?thesis
      by (simp add: described_field_def Let_def)
  qed
qed

lemma foldl_entry_described:
  assumes "distinct (map fst i)" and "j < length fs"
  shows "foldl (\<lambda>fs kv. ToModel_entry e fs (fst kv) (snd kv)) fs i ! j = described_field e i fs j"
  using assms
proof (induction i arbitrary: fs)
  case Nil
  then show ?case by (simp add: described_field_def Let_def)
next
  case (Cons kv rest)
  obtain k v where kv: "kv = (k, v)" by (cases kv)
  from Cons.prems kv have fresh: "k \<notin> fst ` set rest" and d: "distinct (map fst rest)"
    by auto
  have "foldl (\<lambda>fs kv. ToModel_entry e fs (fst kv) (snd kv)) fs (kv # rest) ! j
      = described_field e rest (ToModel_entry e fs k v) j"
    using Cons.IH[OF d, of "ToModel_entry e fs k v"] Cons.prems(2) kv by simp
  also have "\<dots> = described_field e ((k, v) # rest) fs j"
    using Cons.prems(2) fresh by (rule described_field_step)
  finally show ?case using kv by simp
qed




section \<open>Properties of the presentation engine\<close>

lemma Present_fields_Cons:
  "Present_fields obj (f # fs) opts out =
    (case present_field obj opts f out
            (case Presenter f of
               None \<Rightarrow> (\<lambda>x. Panic)
             | Some sub \<Rightarrow> (\<lambda>x. Present x sub opts)) of
       Panic \<Rightarrow> Panic
     | Return out' \<Rightarrow> Present_fields obj fs opts out')"
  by (cases f) simp

lemma Present_fields_append:
  "Present_fields obj (xs @ ys) opts out =
    (case Present_fields obj xs opts out of
       Panic \<Rightarrow> Panic
     | Return mid \<Rightarrow> Present_fields obj ys opts mid)"
proof (induction xs arbitrary: out)
  case Nil
  then show ?case by simp
next
  case (Cons x xs)
  then show ?case
    by (simp add: Present_fields_Cons del: Present_fields.simps split: call.splits)
qed

lemma present_field_other_key:
  assumes "present_field obj opts f out nested = Return out'" and "k \<noteq> JSONKey f"
  shows "map_of out' k = map_of out k"
  using assms
  by (auto simp: present_field_def update_conv' split: if_splits call.splits)

lemma Present_fields_other_key:
  assumes "Present_fields obj fs opts out = Return out'" and "k \<notin> JSONKey ` set fs"
  shows "map_of out' k = map_of out k"
  using assms
proof (induction fs arbitrary: out)
  case Nil
  then show ?case by simp
next
  case (Cons f fs)
  from Cons.prems(1) obtain mid where
    mid: "present_field obj opts f out
            (case Presenter f of None \<Rightarrow> (\<lambda>x. Panic) | Some sub \<Rightarrow> (\<lambda>x. Present x sub opts))
          = Return mid"
      "Present_fields obj fs opts mid = Return out'"
    by (auto simp: Present_fields_Cons simp del: Present_fields.simps split: call.splits)
  from Cons.prems(2) have "k \<noteq> JSONKey f" "k \<notin> JSONKey ` set fs" by auto
  with mid Cons.IH show ?case
    by (metis present_field_other_key)
qed

lemma resolve_default:
  assumes "Func f = None" and "Elem obj = Some (GStruct fs)"
    and "map_of fs (FieldName f) = None
         \<or> (\<exists>ex x. map_of fs (FieldName f) = Some (ex, x) \<and> (IsNilPtr x \<or> IsZero x))"
  shows "resolve obj f = Return (Default f)"
  using assms by (auto simp: resolve_def)

text \<open>
  Claim C6, as amended. The claim as written fails where the descriptor has an inclusion
  predicate that returns false (the key is then left out), where it has a nested presenter
  (the default is then presented again before it is stored), and where a later descriptor
  writes the same output key. What holds for a descriptor without transform function whose
  inclusion predicate is unset or holds, on a record, or a non-nil pointer to one, whose
  source field is absent, a nil pointer or zero:
  \<^item> without a nested presenter the step stores the default under the output key;
  \<^item> with a nested presenter it stores what \<^verbatim>\<open>serializeNested\<close> makes of the default;
  \<^item> when the descriptors before and after it do not panic, there is no nested presenter
    and no later descriptor has the same output key, the output of \<^verbatim>\<open>Present\<close> holds the
    default under the output key.
\<close>

theorem default_for_zero_field:
  assumes "Func f = None"
    and "Condition f = None \<or> (\<exists>cond. Condition f = Some cond \<and> cond obj opts)"
    and "Elem obj = Some (GStruct fs)"
    and "map_of fs (FieldName f) = None
         \<or> (\<exists>ex x. map_of fs (FieldName f) = Some (ex, x) \<and> (IsNilPtr x \<or> IsZero x))"
  shows "(Presenter f = None
            \<longrightarrow> present_field obj opts f out nested
                = Return (AList.update (JSONKey f) (Default f) out))
       \<and> (Presenter f \<noteq> None
            \<longrightarrow> present_field obj opts f out nested
                = (case serializeNested (Default f) nested of
                     Panic \<Rightarrow> Panic
                   | Return d \<Rightarrow> Return (AList.update (JSONKey f) d out)))
       \<and> (Presenter f = None \<and> obj \<noteq> GNil
            \<and> Present_fields obj pre opts [] = Return mid
            \<and> Present_fields obj post opts (AList.update (JSONKey f) (Default f) mid) = Return h
            \<and> JSONKey f \<notin> JSONKey ` set post
            \<longrightarrow> Present obj (pre @ f # post) opts = Return h
                \<and> map_of h (JSONKey f) = Some (Default f))"
proof -
  have val: "resolve obj f = Return (Default f)"
    using assms(1,3,4) by (rule resolve_default)
  have included: "\<not> (case Condition f of Some cond \<Rightarrow> \<not> cond obj opts | None \<Rightarrow> False)"
    using assms(2) by auto
  have plain: "present_field obj opts f out' nested'
      = Return (AList.update (JSONKey f) (Default f) out')" if "Presenter f = None"
    for out' nested'
    using that val included by (simp add: present_field_def)
  have nest: "present_field obj opts f out nested
      = (case serializeNested (Default f) nested of
           Panic \<Rightarrow> Panic
         | Return d \<Rightarrow> Return (AList.update (JSONKey f) d out))" if "Presenter f \<noteq> None"
    using that val included by (simp add: present_field_def)
  have whole: "Present obj (pre @ f # post) opts = Return h
      \<and> map_of h (JSONKey f) = Some (Default f)"
    if a: "Presenter f = None \<and> obj \<noteq> GNil
            \<and> Present_fields obj pre opts [] = Return mid
            \<and> Present_fields obj post opts (AList.update (JSONKey f) (Default f) mid) = Return h
            \<and> JSONKey f \<notin> JSONKey ` set post"
  proof
    from a plain show "Present obj (pre @ f # post) opts = Return h"
      by (simp add: Present_fields_append Present_fields_Cons del: Present_fields.simps)
    from a have "map_of h (JSONKey f)
        = map_of (AList.update (JSONKey f) (Default f) mid) (JSONKey f)"
      by (metis Present_fields_other_key)
    then show "map_of h (JSONKey f) = Some (Default f)"
      by (simp add: update_conv')
  qed
  from plain nest whole show ?thesis by blast
qed

theorem default_for_zero_field_witness:
  "Present (GStruct [(''Name'', True, GString ''John''), (''City'', True, GString []),
              (''Age'', True, GInt 0), (''Boss'', True, GPtr None)])
      ([EntityField ''Name'' None None ''Name'' None GNil]
        @ EntityField ''City'' None None ''City'' None (GString ''Unknown'') # []) []
     = Return [(''Name'', GString ''John''), (''City'', GString ''Unknown'')]
   \<and> present_field (GStruct [(''Name'', True, GString ''John''), (''City'', True, GString []),
              (''Age'', True, GInt 0), (''Boss'', True, GPtr None)]) []
        (EntityField ''Age'' None None ''age'' None (GInt 18)) [] (\<lambda>x. Panic)
     = Return [(''age'', GInt 18)]
   \<and> present_field (GStruct [(''Name'', True, GString ''John''), (''City'', True, GString []),
              (''Age'', True, GInt 0), (''Boss'', True, GPtr None)]) []
        (EntityField ''Boss'' None None ''boss'' None (GString ''nobody'')) [] (\<lambda>x. Panic)
     = Return [(''boss'', GString ''nobody'')]
   \<and> present_field (GStruct [(''Name'', True, GString ''John''), (''City'', True, GString []),
              (''Age'', True, GInt 0), (''Boss'', True, GPtr None)]) []
        (EntityField ''Country'' None None ''country'' None (GString ''US'')) [] (\<lambda>x. Panic)
     = Return [(''country'', GString ''US'')]"
proof -
  let ?obj = "GStruct [(''Name'', True, GString ''John''), (''City'', True, GString []),
              (''Age'', True, GInt 0), (''Boss'', True, GPtr None)]"
  let ?fs = "[(''Name'', True, GString ''John''), (''City'', True, GString []),
              (''Age'', True, GInt 0), (''Boss'', True, GPtr None)]"
  let ?city = "EntityField ''City'' None None ''City'' None (GString ''Unknown'')"
  let ?age = "EntityField ''Age'' None None ''age'' None (GInt 18)"
  let ?boss = "EntityField ''Boss'' None None ''boss'' None (GString ''nobody'')"
  let ?country = "EntityField ''Country'' None None ''country'' None (GString ''US'')"
  let ?h = "[(''Name'', GString ''John''), (''City'', GString ''Unknown'')]"
  have el: "Elem ?obj = Some (GStruct ?fs)"
    by (simp add: Elem_def)
  have fn: "Func ?city = None" "Func ?age = None" "Func ?boss = None" "Func ?country = None"
    by simp_all
  have cond: "Condition ?city = None \<or> (\<exists>cond. Condition ?city = Some cond \<and> cond ?obj [])"
    "Condition ?age = None \<or> (\<exists>cond. Condition ?age = Some cond \<and> cond ?obj [])"
    "Condition ?boss = None \<or> (\<exists>cond. Condition ?boss = Some cond \<and> cond ?obj [])"
    "Condition ?country = None \<or> (\<exists>cond. Condition ?country = Some cond \<and> cond ?obj [])"
    by simp_all
  have zero_city: "map_of ?fs (FieldName ?city) = None
      \<or> (\<exists>ex x. map_of ?fs (FieldName ?city) = Some (ex, x) \<and> (IsNilPtr x \<or> IsZero x))"
    by (auto simp: IsNilPtr_def)
  have zero_age: "map_of ?fs (FieldName ?age) = None
      \<or> (\<exists>ex x. map_of ?fs (FieldName ?age) = Some (ex, x) \<and> (IsNilPtr x \<or> IsZero x))"
    by (auto simp: IsNilPtr_def)
  have zero_boss: "map_of ?fs (FieldName ?boss) = None
      \<or> (\<exists>ex x. map_of ?fs (FieldName ?boss) = Some (ex, x) \<and> (IsNilPtr x \<or> IsZero x))"
    by (auto simp: IsNilPtr_def)
  have zero_country: "map_of ?fs (FieldName ?country) = None
      \<or> (\<exists>ex x. map_of ?fs (FieldName ?country) = Some (ex, x) \<and> (IsNilPtr x \<or> IsZero x))"
    by (auto simp: IsNilPtr_def)
  have whole: "Presenter ?city = None \<and> ?obj \<noteq> GNil
      \<and> Present_fields ?obj [EntityField ''Name'' None None ''Name'' None GNil] [] []
          = Return [(''Name'', GString ''John'')]
      \<and> Present_fields ?obj [] []
          (AList.update (JSONKey ?city) (Default ?city) [(''Name'', GString ''John'')]) = Return ?h
      \<and> JSONKey ?city \<notin> JSONKey ` set []"
    by code_simp
  from default_for_zero_field[OF fn(1) cond(1) el zero_city,
      where pre = "[EntityField ''Name'' None None ''Name'' None GNil]" and post = "[]"
        and mid = "[(''Name'', GString ''John'')]" and h = ?h] whole
  have city: "Present ?obj ([EntityField ''Name'' None None ''Name'' None GNil] @ ?city # []) []
      = Return ?h"
    by blast
  from default_for_zero_field[OF fn(2) cond(2) el zero_age,
      where out = "[]" and nested = "\<lambda>x. Panic"]
  have age: "present_field ?obj [] ?age [] (\<lambda>x. Panic) = Return [(''age'', GInt 18)]"
    by simp
  from default_for_zero_field[OF fn(3) cond(3) el zero_boss,
      where out = "[]" and nested = "\<lambda>x. Panic"]
  have boss: "present_field ?obj [] ?boss [] (\<lambda>x. Panic) = Return [(''boss'', GString ''nobody'')]"
    by simp
  from default_for_zero_field[OF fn(4) cond(4) el zero_country,
      where out = "[]" and nested = "\<lambda>x. Panic"]
  have country: "present_field ?obj [] ?country [] (\<lambda>x. Panic)
      = Return [(''country'', GString ''US'')]"
    by simp
  from city age boss country show ?thesis
    by simp
qed

text \<open>
  The claim as written, refuted: a descriptor whose inclusion predicate returns false is
  left out of the output; a default that is a record, under a nested presenter, is stored
  as its presentation; and a later descriptor with the same output key overwrites the
  default.
\<close>

theorem default_for_zero_field_counterexample:
  "Present (GStruct [(''City'', True, GString [])])
      [EntityField ''City'' None None ''City'' (Some (\<lambda>obj opts. False)) (GString ''Unknown'')] []
     = Return []
   \<and> Present (GStruct [(''Address'', True, GPtr None)])
      [EntityField ''Address'' (Some [EntityField ''Street'' None None ''Street'' None GNil]) None
         ''Address'' None (GStruct [(''Street'', True, GString ''Main'')])] []
     = Return [(''Address'', GMap (Some [(''Street'', GString ''Main'')]))]
   \<and> Present (GStruct [(''City'', True, GString []), (''Town'', True, GString ''Ely'')])
      [EntityField ''City'' None None ''place'' None (GString ''Unknown''),
       EntityField ''Town'' None None ''place'' None GNil] []
     = Return [(''place'', GString ''Ely'')]"
  by code_simp


end
